theory Spec2Isabelle
  imports Main "HOL-Library.Word"
begin

unbundle bit_operations_syntax

section \<open>Machine types of the Hexagon remote runtime\<close>

text \<open>
  The remote side of the runtime (\<^verbatim>\<open>halide_hexagon_remote.cpp\<close>) is compiled for the
  Hexagon DSP, an ILP32 target: \<^verbatim>\<open>int\<close>, \<^verbatim>\<open>size_t\<close> and \<^verbatim>\<open>void *\<close> are 32 bits wide.
  Addresses and sizes are unsigned 32-bit words whose arithmetic wraps around; \<^verbatim>\<open>int\<close>
  is a signed 32-bit word, read with \<open>sint\<close>.
\<close>

type_synonym addr = "32 word"
type_synonym size_t = "32 word"
type_synonym cint = "32 word"

definition sizeof_ptr :: size_t where
  "sizeof_ptr = 4"

section \<open>Aligned allocator: \<^verbatim>\<open>halide_malloc\<close> and \<^verbatim>\<open>halide_free\<close>\<close>

text \<open>
  The C library heap as far as the allocator touches it: the blocks that \<^verbatim>\<open>malloc\<close> has
  handed out and that were not freed since (start address to size in bytes), and the
  pointer-sized memory cells, keyed by the address of their first byte.
\<close>

record heap =
  blocks :: "addr \<rightharpoonup> size_t"
  cells :: "addr \<Rightarrow> addr"

definition heap0 :: heap where
  "heap0 = \<lparr>blocks = Map.empty, cells = (\<lambda>a. 0)\<rparr>"

text \<open>
  \<^verbatim>\<open>malloc(n)\<close>. Which address the C library picks is not decided by this program, so
  the answer \<open>orig\<close> of the call is a parameter; the answer \<open>0\<close> is \<^verbatim>\<open>NULL\<close>, the failed
  allocation, and leaves the heap as it was.
\<close>

definition malloc :: "addr \<Rightarrow> size_t \<Rightarrow> heap \<Rightarrow> addr \<times> heap" where
  "malloc orig n h = (if orig = 0 then (0, h) else (orig, h\<lparr>blocks := (blocks h)(orig \<mapsto> n)\<rparr>))"

definition free :: "addr \<Rightarrow> heap \<Rightarrow> heap" where
  "free p h = h\<lparr>blocks := (blocks h)(p := None)\<rparr>"

text \<open>
  What the C library promises about a successful \<^verbatim>\<open>malloc(n)\<close> that answered \<open>orig\<close>:
  the pointer is not null, it is aligned for every object type (so at least for a
  pointer), and the \<open>n\<close> bytes of the block end inside the address space.
\<close>

definition malloc_ok :: "addr \<Rightarrow> size_t \<Rightarrow> bool" where
  "malloc_ok orig n \<longleftrightarrow> orig \<noteq> 0 \<and> unat orig mod unat sizeof_ptr = 0 \<and> unat orig + unat n < 2 ^ 32"

definition alignment :: size_t where
  "alignment = 128"

text \<open>
  \<^verbatim>\<open>void *halide_malloc(void *user_context, size_t x)\<close>: asks \<^verbatim>\<open>malloc\<close> for
  \<open>x + alignment\<close> bytes, returns \<^verbatim>\<open>NULL\<close> if that fails, and otherwise rounds
  \<open>orig + alignment + sizeof(void*) - 1\<close> down to a multiple of the alignment and stores
  \<open>orig\<close> in the pointer cell just below the address it returns.
\<close>

definition halide_malloc :: "addr \<Rightarrow> heap \<Rightarrow> size_t \<Rightarrow> addr \<times> heap" where
  "halide_malloc orig_answer h x =
     (let (orig, h1) = malloc orig_answer (x + alignment) h in
      if orig = 0 then (0, h1)
      else
        let ptr = (orig + alignment + sizeof_ptr - 1) AND NOT (alignment - 1) in
        (ptr, h1\<lparr>cells := (cells h1)(ptr - sizeof_ptr := orig)\<rparr>))"

text \<open>\<^verbatim>\<open>void halide_free(void *user_context, void *ptr)\<close>: frees the pointer stored below \<open>ptr\<close>.\<close>

definition halide_free :: "heap \<Rightarrow> addr \<Rightarrow> heap" where
  "halide_free h ptr = free (cells h (ptr - sizeof_ptr)) h"


text \<open>The address expression of \<^verbatim>\<open>halide_malloc\<close> on its own, for the proofs below.\<close>

definition aligned_ptr :: "addr \<Rightarrow> addr" where
  "aligned_ptr orig = (orig + alignment + sizeof_ptr - 1) AND NOT (alignment - 1)"

section \<open>Sequential task executor: \<^verbatim>\<open>halide_do_task\<close> and \<^verbatim>\<open>halide_do_par_for\<close>\<close>

text \<open>
  A task \<^verbatim>\<open>int f(void *user_context, int idx, uint8_t *closure)\<close> returns a status and
  acts on memory through its closure; the memory it acts on is the state \<open>'s\<close>, threaded
  through the calls. The user context and the closure pointer are passed on unchanged.
\<close>

type_synonym ('c, 'k, 's) halide_task_t = "'c \<Rightarrow> cint \<Rightarrow> 'k \<Rightarrow> 's \<Rightarrow> cint \<times> 's"

definition halide_do_task :: "'c \<Rightarrow> ('c, 'k, 's) halide_task_t \<Rightarrow> cint \<Rightarrow> 'k \<Rightarrow> 's \<Rightarrow> cint \<times> 's" where
  "halide_do_task user_context f idx closure s = f user_context idx closure s"

text \<open>
  The loop \<^verbatim>\<open>for (int x = min; x < min + size; x++)\<close> from the value \<open>x\<close> on, with
  \<open>bound\<close> the value of \<^verbatim>\<open>min + size\<close>. The comparison is the signed one of \<^verbatim>\<open>int\<close>.
\<close>

function do_par_for_loop ::
  "'c \<Rightarrow> ('c, 'k, 's) halide_task_t \<Rightarrow> cint \<Rightarrow> cint \<Rightarrow> 'k \<Rightarrow> 's \<Rightarrow> cint \<times> 's" where
  "do_par_for_loop user_context f x bound closure s =
     (if x <s bound then
        (let (result, s') = halide_do_task user_context f x closure s in
         if result \<noteq> 0 then (result, s')
         else do_par_for_loop user_context f (x + 1) bound closure s')
      else (0, s))"
  by pat_completeness auto

lemma sint_succ:
  fixes x :: cint
  assumes "x <s bound"
  shows "sint (x + 1) = sint x + 1"
proof -
  have "sint x < sint bound"
    using assms by (simp add: word_sless_alt)
  moreover have "sint bound < 2 ^ 31"
    using sint_lt [of bound] by simp
  moreover have "- (2 ^ 31) \<le> sint x"
    using sint_ge [of x] by simp
  ultimately have "signed_take_bit 31 (sint x + 1) = sint x + 1"
    by (intro signed_take_bit_int_eq_self) simp_all
  then show ?thesis
    by (simp add: sint_word_ariths)
qed

termination do_par_for_loop
proof (relation "measure (\<lambda>(user_context, f, x, bound, closure, s). nat (sint bound - sint x))")
  show "wf (measure (\<lambda>(user_context :: 'a, f :: ('a, 'b, 'c) halide_task_t, x, bound, closure :: 'b, s :: 'c).
              nat (sint bound - sint x)))"
    by simp
next
  fix user_context :: 'a and f :: "('a, 'b, 'c) halide_task_t" and x bound :: cint
    and closure :: 'b and s :: 'c and xa :: "cint \<times> 'c" and xb :: cint and y :: 'c
  assume "x <s bound"
  then have "sint (x + 1) = sint x + 1" and "sint x < sint bound"
    by (simp_all add: sint_succ word_sless_alt)
  then show "((user_context, f, x + 1, bound, closure, y), (user_context, f, x, bound, closure, s))
          \<in> measure (\<lambda>(user_context, f, x, bound, closure, s). nat (sint bound - sint x))"
    by simp
qed

definition halide_do_par_for ::
  "'c \<Rightarrow> ('c, 'k, 's) halide_task_t \<Rightarrow> cint \<Rightarrow> cint \<Rightarrow> 'k \<Rightarrow> 's \<Rightarrow> cint \<times> 's" where
  "halide_do_par_for user_context f min_v size_v closure s =
     do_par_for_loop user_context f min_v (min_v + size_v) closure s"

text \<open>
  The executor is polymorphic in the memory the task acts on, so a task can carry a log of
  its own invocations: \<open>logged f\<close> behaves as \<open>f\<close> and appends the index it was invoked at
  and the status it returned. What the log holds after a run is the sequence of
  invocations the run made.
\<close>

definition logged ::
  "('c, 'k, 's) halide_task_t \<Rightarrow> ('c, 'k, 's \<times> (cint \<times> cint) list) halide_task_t" where
  "logged f user_context idx closure sl =
     (let (result, s') = f user_context idx closure (fst sl)
      in (result, (s', snd sl @ [(idx, result)])))"

text \<open>The indices of \<open>[min, min + size)\<close> in ascending order, as \<^verbatim>\<open>int\<close> values.\<close>

definition index_range :: "cint \<Rightarrow> cint \<Rightarrow> cint list" where
  "index_range min_v size_v = map word_of_int [sint min_v .. sint min_v + sint size_v - 1]"

text \<open>
  What a log of invocations \<open>tr\<close> (index and status of each, in the order made) must look
  like for the loop entered at \<open>x\<close> that returned \<open>r\<close>: the indices are an initial stretch
  of \<open>x, x + 1, \<dots>\<close> below the bound, every invocation before the last returned zero, a
  non-zero \<open>r\<close> is the status of the last invocation, and with \<open>r = 0\<close> all the indices
  up to the bound were invoked and returned zero.
\<close>

definition calls_ok :: "cint \<Rightarrow> cint \<Rightarrow> cint \<Rightarrow> (cint \<times> cint) list \<Rightarrow> bool" where
  "calls_ok x bound r tr \<longleftrightarrow>
     map fst tr = take (length tr) (map word_of_int [sint x .. sint bound - 1])
   \<and> (\<forall>p \<in> set (butlast tr). snd p = 0)
   \<and> (r \<noteq> 0 \<longrightarrow> tr \<noteq> [] \<and> snd (last tr) = r)
   \<and> (r = 0 \<longrightarrow> length tr = nat (sint bound - sint x) \<and> (\<forall>p \<in> set tr. snd p = 0))"

text \<open>A task for the examples: it counts its invocations and returns \<open>c\<close> at index \<open>k\<close>.\<close>

definition fail_at :: "cint \<Rightarrow> cint \<Rightarrow> (unit, unit, nat) halide_task_t" where
  "fail_at k c user_context idx closure n = (if idx = k then c else 0, Suc n)"

section \<open>Module loader and power reference count\<close>

text \<open>
  \<^verbatim>\<open>halide_hexagon_remote_handle_t\<close> is a 32-bit integer that carries the address returned
  by \<^verbatim>\<open>dlopen\<close> or \<^verbatim>\<open>dlsym\<close>.
\<close>

type_synonym handle_t = addr

text \<open>
  The calls the service makes into the platform: the dynamic loader, the runtime
  installation function of the loaded module, and the power interface
  (\<^verbatim>\<open>HAP_power_set\<close> with a request of type \<^verbatim>\<open>HAP_power_set_HVX\<close> and its \<^verbatim>\<open>power_up\<close>
  flag, \<^verbatim>\<open>HAP_power_request\<close> with its three integer arguments).
\<close>

datatype platform_call =
    Dlopen string
  | Dlsym handle_t string
  | Dlclose handle_t
  | Set_runtime
  | HAP_power_set_HVX bool
  | HAP_power_request int int int

text \<open>
  The state of the service: the global \<^verbatim>\<open>int context_count\<close>, zero at start, and the
  platform calls made so far, oldest first.
\<close>

record remote =
  context_count :: cint
  calls :: "platform_call list"

definition remote0 :: remote where
  "remote0 = \<lparr>context_count = 0, calls = []\<rparr>"

text \<open>
  What the platform answers during one operation is not decided by this program; the
  answers are parameters. \<open>dlopen_answer\<close> and \<open>dlsym_answer\<close> are the addresses returned
  (0 is \<^verbatim>\<open>NULL\<close>), the others are the integer statuses returned by the module's
  \<^verbatim>\<open>halide_noos_set_runtime\<close>, by \<^verbatim>\<open>HAP_power_set\<close>, by \<^verbatim>\<open>dlclose\<close> and by
  \<^verbatim>\<open>HAP_power_request\<close>.
\<close>

record platform =
  dlopen_answer :: addr
  dlsym_answer :: addr
  set_runtime_answer :: cint
  power_set_answer :: cint
  dlclose_answer :: cint
  power_request_answer :: cint

definition call :: "platform_call \<Rightarrow> remote \<Rightarrow> remote" where
  "call c st = st\<lparr>calls := calls st @ [c]\<rparr>"

text \<open>
  \<^verbatim>\<open>int halide_hexagon_remote_initialize_kernels(code, codeLen, module_ptr)\<close>, with the
  shared object taken from the file named by \<open>code\<close>. The result is the status, the value
  written to \<^verbatim>\<open>*module_ptr\<close> (if any) and the new state. The diagnostics sent to
  \<^verbatim>\<open>FARF\<close> change nothing here and are left out.
\<close>

definition halide_hexagon_remote_initialize_kernels ::
  "platform \<Rightarrow> string \<Rightarrow> cint \<Rightarrow> remote \<Rightarrow> cint \<times> handle_t option \<times> remote" where
  "halide_hexagon_remote_initialize_kernels p code codeLen st =
     (let filename = code;
          lib = dlopen_answer p;
          st1 = call (Dlopen filename) st
      in
      if lib = 0 then (- 1, None, st1)
      else
        let set_runtime = dlsym_answer p;
            st2 = call (Dlsym lib ''halide_noos_set_runtime'') st1
        in
        if set_runtime = 0 then (- 1, None, call (Dlclose lib) st2)
        else
          let result = set_runtime_answer p;
              st3 = call Set_runtime st2
          in
          if result \<noteq> 0 then (result, None, call (Dlclose lib) st3)
          else
            if context_count st3 = 0 then
              (let retval = power_set_answer p;
                   st4 = call (HAP_power_set_HVX True) st3
               in
               if 0 \<noteq> retval then (- 1, Some lib, st4)
               else (0, Some lib, st4\<lparr>context_count := context_count st4 + 1\<rparr>))
            else (0, Some lib, st3\<lparr>context_count := context_count st3 + 1\<rparr>))"

text \<open>
  \<^verbatim>\<open>int halide_hexagon_remote_release_kernels(module_ptr, codeLen)\<close>. The test
  \<^verbatim>\<open>context_count-- == 0\<close> compares the value the count had before the decrement. The
  statuses of \<^verbatim>\<open>dlclose\<close> and \<^verbatim>\<open>HAP_power_request\<close> are not looked at.
\<close>

definition halide_hexagon_remote_release_kernels ::
  "platform \<Rightarrow> handle_t \<Rightarrow> cint \<Rightarrow> remote \<Rightarrow> cint \<times> remote" where
  "halide_hexagon_remote_release_kernels p module_ptr codeLen st =
     (let st1 = call (Dlclose module_ptr) st;
          old = context_count st1;
          st2 = st1\<lparr>context_count := old - 1\<rparr>
      in
      if old = 0 then (0, call (HAP_power_request 0 0 (- 1)) st2)
      else (0, st2))"

text \<open>The answers of a platform on which every call succeeds, with the image at \<open>0x4000\<close>.\<close>

definition all_ok :: platform where
  "all_ok = \<lparr>dlopen_answer = 0x4000, dlsym_answer = 0x4100, set_runtime_answer = 0,
             power_set_answer = 0, dlclose_answer = 0, power_request_answer = 0\<rparr>"

text \<open>
  \<open>n\<close> loads in a row, and \<open>n\<close> releases in a row, on the platform on which every call
  succeeds.
\<close>

fun loads :: "nat \<Rightarrow> remote \<Rightarrow> remote" where
  "loads 0 st = st"
| "loads (Suc n) st =
     loads n (snd (snd (halide_hexagon_remote_initialize_kernels all_ok ''kernels.so'' 0 st)))"

fun releases :: "nat \<Rightarrow> remote \<Rightarrow> remote" where
  "releases 0 st = st"
| "releases (Suc n) st =
     releases n (snd (halide_hexagon_remote_release_kernels all_ok 0x4000 0 st))"

section \<open>Invocation marshaler: \<^verbatim>\<open>halide_hexagon_remote_run\<close>\<close>

text \<open>
  Modelled from the spec: the type \<^verbatim>\<open>halide_hexagon_remote_buffer\<close> is declared in
  \<^verbatim>\<open>halide_hexagon_remote.h\<close>, which is not among the sources. The specification describes
  a buffer descriptor as a raw data pointer with a size known to the caller; the code reads
  the field \<^verbatim>\<open>data\<close> only.
\<close>

record buffer =
  data :: addr
  dataLen :: cint

text \<open>The local \<^verbatim>\<open>struct buffer_t { uint64_t dev; uint8_t* host; }\<close>.\<close>

record buffer_t =
  dev :: "64 word"
  host :: addr

text \<open>
  A slot of the argument array is a \<^verbatim>\<open>void *\<close>: it is made to point at an element of the
  local array \<^verbatim>\<open>buffers\<close>, given by its index, or it holds a data pointer of the caller.
\<close>

datatype arg = Buffer_t_ptr nat | Data_ptr addr

text \<open>
  The two arrays come from \<^verbatim>\<open>__builtin_alloca\<close>, which does not initialise them: what
  an element holds before it is written is whatever the stack held, a parameter.
\<close>

record stack =
  stale_args :: "nat \<Rightarrow> arg"
  stale_buffers :: "nat \<Rightarrow> buffer_t"

definition alloca_args :: "stack \<Rightarrow> nat \<Rightarrow> arg list" where
  "alloca_args stk n = map (stale_args stk) [0..<n]"

definition alloca_buffers :: "stack \<Rightarrow> nat \<Rightarrow> buffer_t list" where
  "alloca_buffers stk n = map (stale_buffers stk) [0..<n]"

text \<open>The arrays and the two cursors \<^verbatim>\<open>next_arg\<close> and \<^verbatim>\<open>next_buffer_t\<close>, as indices.\<close>

record frame =
  args :: "arg list"
  buffers :: "buffer_t list"
  next_arg :: nat
  next_buffer_t :: nat

text \<open>
  The loop over the input buffers, and again over the output buffers: for each element in
  order, store its \<open>data\<close> in the \<open>host\<close> field of the next descriptor, point the next
  slot at that descriptor, and advance both cursors. A (pointer, length) pair of the
  interface is a list here.
\<close>

fun buffers_loop :: "buffer list \<Rightarrow> frame \<Rightarrow> frame" where
  "buffers_loop [] fr = fr"
| "buffers_loop (b # bs) fr =
     buffers_loop bs
       (fr\<lparr>buffers := (buffers fr)[next_buffer_t fr := (buffers fr ! next_buffer_t fr)\<lparr>host := data b\<rparr>],
           args := (args fr)[next_arg fr := Buffer_t_ptr (next_buffer_t fr)],
           next_arg := Suc (next_arg fr),
           next_buffer_t := Suc (next_buffer_t fr)\<rparr>)"

text \<open>The loop over the input scalars: the slot is the scalar's data pointer.\<close>

fun scalars_loop :: "buffer list \<Rightarrow> frame \<Rightarrow> frame" where
  "scalars_loop [] fr = fr"
| "scalars_loop (b # bs) fr =
     scalars_loop bs
       (fr\<lparr>args := (args fr)[next_arg fr := Data_ptr (data b)],
           next_arg := Suc (next_arg fr)\<rparr>)"

text \<open>The arrays as they are when the pipeline is called.\<close>

definition marshal :: "stack \<Rightarrow> buffer list \<Rightarrow> buffer list \<Rightarrow> buffer list \<Rightarrow> frame" where
  "marshal stk input_buffers input_scalars output_buffers =
     (let fr0 = \<lparr>args = alloca_args stk
                     (length input_buffers + length input_scalars + length output_buffers),
                 buffers = alloca_buffers stk (length input_buffers + length output_buffers),
                 next_arg = 0, next_buffer_t = 0\<rparr>;
          fr1 = buffers_loop input_buffers fr0;
          fr2 = scalars_loop input_scalars fr1
      in buffers_loop output_buffers fr2)"

text \<open>
  \<^verbatim>\<open>int halide_hexagon_remote_run(module_ptr, function, input_buffers, input_scalars,
  output_buffers)\<close>. The handle \<open>function\<close> is cast to the pipeline
  \<^verbatim>\<open>int (*)(void **)\<close>: a function of the argument array that may read the descriptors the
  slots point at and acts on the memory \<open>'w\<close> of the caller's buffers.
\<close>

definition halide_hexagon_remote_run ::
  "stack \<Rightarrow> handle_t \<Rightarrow> (arg list \<Rightarrow> buffer_t list \<Rightarrow> 'w \<Rightarrow> cint \<times> 'w)
     \<Rightarrow> buffer list \<Rightarrow> buffer list \<Rightarrow> buffer list \<Rightarrow> 'w \<Rightarrow> cint \<times> 'w" where
  "halide_hexagon_remote_run stk module_ptr pipeline input_buffers input_scalars output_buffers w =
     (let fr = marshal stk input_buffers input_scalars output_buffers
      in pipeline (args fr) (buffers fr) w)"

text \<open>A stack for the examples, with a recognisable value in every stale \<open>dev\<close> field.\<close>

definition stale_stack :: stack where
  "stale_stack = \<lparr>stale_args = (\<lambda>i. Data_ptr 0),
                  stale_buffers = (\<lambda>i. \<lparr>dev = 0xDEADBEEF, host = 0\<rparr>)\<rparr>"

section \<open>Properties of the aligned allocator\<close>

subsection \<open>Rounding down to a multiple of 128\<close>

lemma and_not_mask7_shift: "(w::32 word) AND NOT (mask 7) = push_bit 7 (drop_bit 7 w)"
  by (rule bit_word_eqI) (auto simp: bit_simps)

lemma unat_and_not_127: "unat ((w::32 word) AND NOT (128 - 1)) = unat w - unat w mod 128"
proof -
  let ?a = "w AND NOT (mask 7)"
  have m: "w AND NOT (128 - 1) = ?a"
    by (simp add: mask_eq_exp_minus_1)
  have "push_bit 7 (drop_bit 7 w) + take_bit 7 w = w"
    by (rule bits_ident)
  then have split: "?a + take_bit 7 w = w"
    by (simp only: and_not_mask7_shift)
  have tb: "unat (take_bit 7 w) = unat w mod 128"
    by (simp add: unsigned_take_bit_eq) (simp add: take_bit_eq_mod)
  have "?a = w - take_bit 7 w"
    using split by (metis add_diff_cancel_right')
  moreover have "take_bit 7 w \<le> w"
    by (simp add: word_le_nat_alt tb)
  ultimately have "unat ?a = unat w - unat (take_bit 7 w)"
    by (simp only: unat_sub)
  then show ?thesis by (simp only: m tb)
qed

lemma round_down_dvd: "((w::nat) - w mod 128) mod 128 = 0"
  by (simp add: minus_mod_eq_mult_div)

lemma round_down_bounds:
  fixes a :: nat
  assumes "a mod 4 = 0"
  shows "a + 4 \<le> a + 131 - (a + 131) mod 128" and "a + 131 - (a + 131) mod 128 \<le> a + 128"
proof -
  from assms obtain k where k: "a = 4 * k"
    by (auto simp: mod_eq_0_iff_dvd)
  have "a mod 128 = 4 * (k mod 32)"
    unfolding k using mult_mod_right [of 4 k 32] by simp
  moreover have "k mod 32 < 32" by simp
  ultimately have m: "a mod 128 \<le> 124" by linarith
  have e: "a + 131 = (a + 3) + 128 * 1" by simp
  have "(a + 131) mod 128 = (a + 3) mod 128"
    unfolding e by (rule mod_mult_self2)
  also have "\<dots> = (a mod 128 + 3) mod 128" by (simp add: mod_add_left_eq)
  finally have "(a + 131) mod 128 = (a mod 128 + 3) mod 128" .
  with m have r: "(a + 131) mod 128 = a mod 128 + 3" by simp
  show "a + 4 \<le> a + 131 - (a + 131) mod 128" using m r by simp
  show "a + 131 - (a + 131) mod 128 \<le> a + 128" using r by simp
qed

subsection \<open>The pointer that \<^verbatim>\<open>halide_malloc\<close> returns\<close>

lemma halide_malloc_null: "halide_malloc 0 h x = (0, h)"
  by (simp add: halide_malloc_def malloc_def)

lemma halide_malloc_success:
  assumes "orig \<noteq> 0"
  shows "halide_malloc orig h x =
           (aligned_ptr orig,
            h\<lparr>blocks := (blocks h)(orig \<mapsto> x + alignment),
              cells := (cells h)(aligned_ptr orig - sizeof_ptr := orig)\<rparr>)"
  using assms by (simp add: halide_malloc_def malloc_def aligned_ptr_def Let_def)

lemma aligned_ptr_multiple: "unat (aligned_ptr orig) mod 128 = 0"
  unfolding aligned_ptr_def alignment_def by (simp only: unat_and_not_127 round_down_dvd)

lemma aligned_ptr_unat:
  assumes "unat orig + 131 < 2 ^ 32"
  shows "unat (aligned_ptr orig) = unat orig + 131 - (unat orig + 131) mod 128"
proof -
  have "orig + alignment + sizeof_ptr - 1 = orig + 131"
    by (simp add: alignment_def sizeof_ptr_def)
  then have e: "aligned_ptr orig = (orig + 131) AND NOT (128 - 1)"
    by (simp only: aligned_ptr_def alignment_def)
  have u: "unat (orig + 131) = unat orig + 131"
    using assms by (simp add: unat_word_ariths)
  have "unat ((orig + 131) AND NOT (128 - 1)) = unat (orig + 131) - unat (orig + 131) mod 128"
    by (rule unat_and_not_127)
  then show ?thesis
    by (simp only: e u)
qed

lemma top_of_address_space:
  "(n::nat) + 128 < 4294967296 \<Longrightarrow> n mod 4 = 0 \<Longrightarrow> n + 131 < 4294967296"
  by presburger

lemma malloc_ok_no_wrap:
  assumes ok: "malloc_ok orig (x + alignment)" and nw: "unat x + unat alignment < 2 ^ 32"
  shows "unat (x + alignment) = unat x + 128" and "unat orig + 131 < 2 ^ 32"
    and "unat orig mod 4 = 0" and "orig \<noteq> 0"
proof -
  show s: "unat (x + alignment) = unat x + 128"
    using nw by (simp add: unat_word_ariths alignment_def)
  show a: "unat orig mod 4 = 0"
    using ok by (simp add: malloc_ok_def sizeof_ptr_def)
  show "orig \<noteq> 0"
    using ok by (simp add: malloc_ok_def)
  have "unat orig + 128 < 4294967296"
    using ok s by (simp add: malloc_ok_def)
  then have "unat orig + 131 < 4294967296"
    using a by (rule top_of_address_space)
  then show "unat orig + 131 < 2 ^ 32" by simp
qed

lemma aligned_ptr_bounds:
  assumes ok: "malloc_ok orig (x + alignment)" and nw: "unat x + unat alignment < 2 ^ 32"
  shows "unat orig + 4 \<le> unat (aligned_ptr orig)"
    and "unat (aligned_ptr orig) \<le> unat orig + 128"
proof -
  note f = malloc_ok_no_wrap [OF ok nw]
  have p: "unat (aligned_ptr orig) = unat orig + 131 - (unat orig + 131) mod 128"
    by (rule aligned_ptr_unat [OF f(2)])
  show "unat orig + 4 \<le> unat (aligned_ptr orig)"
    unfolding p by (rule round_down_bounds(1) [OF f(3)])
  show "unat (aligned_ptr orig) \<le> unat orig + 128"
    unfolding p by (rule round_down_bounds(2) [OF f(3)])
qed

lemma aligned_ptr_cell:
  assumes ok: "malloc_ok orig (x + alignment)" and nw: "unat x + unat alignment < 2 ^ 32"
  shows "unat (aligned_ptr orig - sizeof_ptr) = unat (aligned_ptr orig) - 4"
proof -
  have "unat orig + 4 \<le> unat (aligned_ptr orig)"
    by (rule aligned_ptr_bounds(1) [OF ok nw])
  then have "sizeof_ptr \<le> aligned_ptr orig"
    by (simp add: word_le_nat_alt sizeof_ptr_def)
  then have "unat (aligned_ptr orig - sizeof_ptr) = unat (aligned_ptr orig) - unat sizeof_ptr"
    by (rule unat_sub)
  then show ?thesis by (simp add: sizeof_ptr_def)
qed

subsection \<open>What \<^verbatim>\<open>halide_malloc\<close> guarantees\<close>

text \<open>
  Claim C3, as amended. Let \<^verbatim>\<open>malloc(x + 128)\<close> succeed with a block that meets the C
  library's contract, for a size \<open>x\<close> whose request \<open>x + 128\<close> does not wrap around
  \<^verbatim>\<open>size_t\<close>. Then the address that \<^verbatim>\<open>halide_malloc\<close> returns is a multiple of 128, it
  lies at or after the start of the block, and the \<open>x\<close> bytes from it end inside the
  block. The block that was requested is larger than \<open>x\<close> by exactly the alignment, 128
  bytes: the size of a pointer is not added to the request.
\<close>

theorem halide_malloc_aligned_region:
  assumes ok: "malloc_ok orig (x + alignment)"
    and nw: "unat x + unat alignment < 2 ^ 32"
  shows "unat (fst (halide_malloc orig h x)) mod 128 = 0
       \<and> unat orig \<le> unat (fst (halide_malloc orig h x))
       \<and> unat (fst (halide_malloc orig h x)) + unat x \<le> unat orig + unat (x + alignment)
       \<and> blocks (snd (halide_malloc orig h x)) orig = Some (x + alignment)
       \<and> unat (x + alignment) = unat x + unat alignment"
proof -
  note f = malloc_ok_no_wrap [OF ok nw]
  have r: "fst (halide_malloc orig h x) = aligned_ptr orig"
    by (simp add: halide_malloc_success [OF f(4)])
  have b: "blocks (snd (halide_malloc orig h x)) orig = Some (x + alignment)"
    by (simp add: halide_malloc_success [OF f(4)])
  have lo: "unat orig \<le> unat (aligned_ptr orig)"
    using aligned_ptr_bounds(1) [OF ok nw] by simp
  have hi: "unat (aligned_ptr orig) + unat x \<le> unat orig + unat (x + alignment)"
    using aligned_ptr_bounds(2) [OF ok nw] by (simp add: f(1))
  have "unat alignment = 128"
    by (simp add: alignment_def)
  then have sz: "unat (x + alignment) = unat x + unat alignment"
    by (simp only: f(1))
  show ?thesis
    unfolding r using aligned_ptr_multiple [of orig] lo hi b sz by blast
qed

text \<open>An instance: 16 bytes, from a block that \<^verbatim>\<open>malloc\<close> placed at \<open>0x1008\<close>.\<close>

theorem halide_malloc_aligned_region_witness:
  "malloc_ok 0x1008 (16 + alignment) \<and> unat (16 :: size_t) + unat alignment < 2 ^ 32
   \<and> fst (halide_malloc 0x1008 heap0 16) = 0x1080
   \<and> unat (fst (halide_malloc 0x1008 heap0 16)) mod 128 = 0
   \<and> unat (0x1008 :: addr) \<le> unat (fst (halide_malloc 0x1008 heap0 16))
   \<and> unat (fst (halide_malloc 0x1008 heap0 16)) + unat (16 :: size_t)
        \<le> unat (0x1008 :: addr) + unat (16 + alignment)
   \<and> blocks (snd (halide_malloc 0x1008 heap0 16)) 0x1008 = Some (16 + alignment)
   \<and> unat (16 + alignment) = unat (16 :: size_t) + unat alignment"
proof -
  have ok: "malloc_ok 0x1008 (16 + alignment)"
    by (simp add: malloc_ok_def alignment_def sizeof_ptr_def)
  have nw: "unat (16 :: size_t) + unat alignment < 2 ^ 32"
    by (simp add: alignment_def)
  have v: "fst (halide_malloc 0x1008 heap0 16) = 0x1080"
    by (simp add: halide_malloc_def malloc_def alignment_def sizeof_ptr_def Let_def)
  show ?thesis
    using halide_malloc_aligned_region [OF ok nw, of heap0] ok nw v by simp
qed

text \<open>
  Claim C3 as the specification words it asks for a block larger than the size by at
  least the alignment plus the size of a pointer. For 16 bytes the block requested is of
  144 bytes, which is less than \<open>16 + 128 + 4\<close>.
\<close>

theorem halide_malloc_overallocation_counterexample:
  "blocks (snd (halide_malloc 0x1008 heap0 16)) 0x1008 = Some 144
   \<and> \<not> (unat (16 :: size_t) + unat alignment + unat sizeof_ptr \<le> unat (144 :: size_t))"
  by (simp add: halide_malloc_def malloc_def alignment_def sizeof_ptr_def Let_def)

text \<open>
  For a size whose request \<open>x + 128\<close> does not wrap around \<^verbatim>\<open>size_t\<close>, and a block that
  meets the C library's contract: the address returned is at least the size of a pointer
  past the start of the block, so the cell just below it, where the original pointer is
  stored, begins at or after the start of the block and ends inside the block; the cell
  holds the address of the block.
\<close>

lemma halide_malloc_bookkeeping_inside:
  assumes ok: "malloc_ok orig (x + alignment)"
    and nw: "unat x + unat alignment < 2 ^ 32"
  shows "unat orig + unat sizeof_ptr \<le> unat (fst (halide_malloc orig h x))
       \<and> unat (fst (halide_malloc orig h x) - sizeof_ptr)
            = unat (fst (halide_malloc orig h x)) - unat sizeof_ptr
       \<and> unat (fst (halide_malloc orig h x)) \<le> unat orig + unat (x + alignment)
       \<and> cells (snd (halide_malloc orig h x)) (fst (halide_malloc orig h x) - sizeof_ptr) = orig
       \<and> blocks (snd (halide_malloc orig h x)) orig = Some (x + alignment)"
proof -
  note f = malloc_ok_no_wrap [OF ok nw]
  have r: "fst (halide_malloc orig h x) = aligned_ptr orig"
    by (simp add: halide_malloc_success [OF f(4)])
  have b: "blocks (snd (halide_malloc orig h x)) orig = Some (x + alignment)"
    by (simp add: halide_malloc_success [OF f(4)])
  have c: "cells (snd (halide_malloc orig h x)) (aligned_ptr orig - sizeof_ptr) = orig"
    by (simp add: halide_malloc_success [OF f(4)])
  have lo: "unat orig + unat sizeof_ptr \<le> unat (aligned_ptr orig)"
    using aligned_ptr_bounds(1) [OF ok nw] by (simp add: sizeof_ptr_def)
  have cell: "unat (aligned_ptr orig - sizeof_ptr) = unat (aligned_ptr orig) - unat sizeof_ptr"
    using aligned_ptr_cell [OF ok nw] by (simp add: sizeof_ptr_def)
  have hi: "unat (aligned_ptr orig) \<le> unat orig + unat (x + alignment)"
    using aligned_ptr_bounds(2) [OF ok nw] by (simp add: f(1))
  show ?thesis
    unfolding r using lo cell hi c b by blast
qed

text \<open>An instance: zero bytes, from a block that \<^verbatim>\<open>malloc\<close> placed at \<open>0x2000\<close>.\<close>

lemma halide_malloc_bookkeeping_inside_instance:
  "malloc_ok 0x2000 (0 + alignment) \<and> unat (0 :: size_t) + unat alignment < 2 ^ 32
   \<and> fst (halide_malloc 0x2000 heap0 0) = 0x2080
   \<and> unat (0x2000 :: addr) + unat sizeof_ptr \<le> unat (fst (halide_malloc 0x2000 heap0 0))
   \<and> unat (fst (halide_malloc 0x2000 heap0 0)) \<le> unat (0x2000 :: addr) + unat (0 + alignment)
   \<and> cells (snd (halide_malloc 0x2000 heap0 0)) (fst (halide_malloc 0x2000 heap0 0) - sizeof_ptr) = 0x2000"
proof -
  have ok: "malloc_ok 0x2000 (0 + alignment)"
    by (simp add: malloc_ok_def alignment_def sizeof_ptr_def)
  have nw: "unat (0 :: size_t) + unat alignment < 2 ^ 32"
    by (simp add: alignment_def)
  have v: "fst (halide_malloc 0x2000 heap0 0) = 0x2080"
    by (simp add: halide_malloc_def malloc_def alignment_def sizeof_ptr_def Let_def)
  show ?thesis
    using halide_malloc_bookkeeping_inside [OF ok nw, of heap0] ok nw v by simp
qed

text \<open>
  Claim C10 says that for every successful allocation the store of the original pointer
  just below the returned address writes inside the allocated block. The request
  \<open>x + alignment\<close> is computed in \<^verbatim>\<open>size_t\<close> with no check, and it wraps for a size within
  128 of the largest. For \<open>x = 0xFFFFFF90\<close> the request is of 16 bytes; let \<^verbatim>\<open>malloc\<close>
  answer \<open>0x1008\<close>, a block that meets the C library's contract and ends at \<open>0x1018\<close>. The
  address returned is \<open>0x1080\<close>, and the original pointer is stored in the cell at
  \<open>0x107C\<close>, beyond the end of the block.
\<close>

theorem halide_malloc_wrapped_request_store_outside:
  "malloc_ok 0x1008 (0xFFFFFF90 + alignment)
   \<and> blocks (snd (halide_malloc 0x1008 heap0 0xFFFFFF90)) 0x1008 = Some 16
   \<and> fst (halide_malloc 0x1008 heap0 0xFFFFFF90) = 0x1080
   \<and> fst (halide_malloc 0x1008 heap0 0xFFFFFF90) - sizeof_ptr = 0x107C
   \<and> cells (snd (halide_malloc 0x1008 heap0 0xFFFFFF90)) 0x107C = 0x1008
   \<and> unat (0x1008 :: addr) + unat (16 :: size_t) < unat (0x107C :: addr)"
  by (simp add: halide_malloc_def malloc_def malloc_ok_def alignment_def sizeof_ptr_def
      heap0_def Let_def)

text \<open>\<^verbatim>\<open>halide_free\<close> on the address returned releases the block that \<^verbatim>\<open>malloc\<close> gave.\<close>

lemma halide_free_roundtrip:
  assumes "orig \<noteq> 0"
  shows "blocks (halide_free (snd (halide_malloc orig h x)) (fst (halide_malloc orig h x))) orig = None"
  by (simp add: halide_malloc_success [OF assms] halide_free_def free_def)

section \<open>Properties of the sequential task executor\<close>

subsection \<open>The log of a logged task\<close>

lemma upto_first:
  fixes x bound :: cint
  assumes "x <s bound"
  shows "map word_of_int [sint x .. sint bound - 1]
           = x # map word_of_int [sint (x + 1) .. sint bound - 1]"
proof -
  have lt: "sint x < sint bound"
    using assms by (simp add: word_sless_alt)
  then have "[sint x .. sint bound - 1] = sint x # [sint x + 1 .. sint bound - 1]"
    by (simp add: upto_rec1)
  then show ?thesis
    by (simp add: sint_succ [OF assms])
qed

lemma calls_ok_done: "\<not> x <s bound \<Longrightarrow> calls_ok x bound 0 []"
  by (simp add: calls_ok_def word_sless_alt)

lemma calls_ok_stop: "x <s bound \<Longrightarrow> r \<noteq> 0 \<Longrightarrow> calls_ok x bound r [(x, r)]"
  by (simp add: calls_ok_def upto_first)

lemma calls_ok_step:
  assumes lt: "x <s bound" and rest: "calls_ok (x + 1) bound r tr"
  shows "calls_ok x bound r ((x, 0) # tr)"
proof -
  have s: "sint (x + 1) = sint x + 1" and l: "sint x < sint bound"
    using lt by (simp_all add: sint_succ word_sless_alt)
  have 1: "map fst ((x, 0) # tr)
             = take (length ((x, 0) # tr)) (map word_of_int [sint x .. sint bound - 1])"
    using rest by (simp add: calls_ok_def upto_first [OF lt])
  have 2: "\<forall>p \<in> set (butlast ((x, 0) # tr)). snd p = 0"
    using rest by (auto simp: calls_ok_def)
  have 3: "r \<noteq> 0 \<longrightarrow> (x, 0) # tr \<noteq> [] \<and> snd (last ((x, 0) # tr)) = r"
    using rest by (auto simp: calls_ok_def)
  have 4: "r = 0 \<longrightarrow> length ((x, 0) # tr) = nat (sint bound - sint x)
                   \<and> (\<forall>p \<in> set ((x, 0) # tr). snd p = 0)"
    using rest s l by (auto simp: calls_ok_def)
  show ?thesis
    unfolding calls_ok_def using 1 2 3 4 by blast
qed

text \<open>
  Running the loop on the logged task returns what the loop returns on the task itself,
  and extends the log by the invocations made, which have the shape \<open>calls_ok\<close>.
\<close>

lemma do_par_for_loop_logged:
  "\<exists>tr. do_par_for_loop uc (logged f) x bound cl (s, lg)
          = (fst (do_par_for_loop uc f x bound cl s),
             (snd (do_par_for_loop uc f x bound cl s), lg @ tr))
      \<and> calls_ok x bound (fst (do_par_for_loop uc f x bound cl s)) tr"
proof (induction uc f x bound cl s arbitrary: lg rule: do_par_for_loop.induct)
  case (1 uc f x bound cl s)
  show ?case
  proof (cases "x <s bound")
    case False
    then show ?thesis
      using calls_ok_done [of x bound] by (intro exI [of _ "[]"]) simp
  next
    case True
    obtain r s' where call: "f uc x cl s = (r, s')"
      by (cases "f uc x cl s")
    then have lcall: "logged f uc x cl (s, lg) = (r, (s', lg @ [(x, r)]))"
      by (simp add: logged_def)
    show ?thesis
    proof (cases "r = 0")
      case False
      have "do_par_for_loop uc f x bound cl s = (r, s')"
        using True False call by (simp add: halide_do_task_def)
      moreover have "do_par_for_loop uc (logged f) x bound cl (s, lg) = (r, (s', lg @ [(x, r)]))"
        using True False lcall by (simp add: halide_do_task_def)
      ultimately show ?thesis
        using calls_ok_stop [OF True False] by (intro exI [of _ "[(x, r)]"]) simp
    next
      case r0: True
      have u: "do_par_for_loop uc f x bound cl s = do_par_for_loop uc f (x + 1) bound cl s'"
        using True r0 call by (simp add: halide_do_task_def)
      have ul: "do_par_for_loop uc (logged f) x bound cl (s, lg)
                  = do_par_for_loop uc (logged f) (x + 1) bound cl (s', lg @ [(x, 0)])"
        using True r0 lcall by (simp add: halide_do_task_def)
      have hd: "(r, s') = halide_do_task uc f x cl s"
        using call by (simp add: halide_do_task_def)
      have nz: "\<not> r \<noteq> 0"
        using r0 by simp
      from "1.IH" [OF True refl hd nz, where lg = "lg @ [(x, 0)]"]
      obtain tr where
        run: "do_par_for_loop uc (logged f) (x + 1) bound cl (s', lg @ [(x, 0)])
                = (fst (do_par_for_loop uc f (x + 1) bound cl s'),
                   (snd (do_par_for_loop uc f (x + 1) bound cl s'), (lg @ [(x, 0)]) @ tr))"
        and ok: "calls_ok (x + 1) bound (fst (do_par_for_loop uc f (x + 1) bound cl s')) tr"
        by auto
      have "calls_ok x bound (fst (do_par_for_loop uc f (x + 1) bound cl s')) ((x, 0) # tr)"
        by (rule calls_ok_step [OF True ok])
      then show ?thesis
        by (intro exI [of _ "(x, 0) # tr"]) (simp only: u ul run, simp)
    qed
  qed
qed

text \<open>
  Signed overflow is undefined in C: the sum \<^verbatim>\<open>min + size\<close> is read as the integer sum only
  when that is an \<^verbatim>\<open>int\<close>.
\<close>

lemma sint_bound:
  fixes min_v size_v :: cint
  assumes "- (2 ^ 31) \<le> sint min_v + sint size_v" and "sint min_v + sint size_v < 2 ^ 31"
  shows "sint (min_v + size_v) = sint min_v + sint size_v"
proof -
  have "signed_take_bit 31 (sint min_v + sint size_v) = sint min_v + sint size_v"
    using assms by (intro signed_take_bit_int_eq_self) simp_all
  then show ?thesis
    by (simp add: sint_word_ariths)
qed

subsection \<open>Fail-fast, in ascending order\<close>

text \<open>
  Claim C5. For every task, start index \<open>min\<close>, count \<open>size\<close> (with \<open>min + size\<close> an
  \<^verbatim>\<open>int\<close>) and closure: let \<open>tr\<close> be the invocations that \<^verbatim>\<open>halide_do_par_for\<close> makes, as
  logged by the task, and \<open>r\<close> the status returned. The indices invoked are an initial
  stretch of \<open>min, min + 1, \<dots>, min + size - 1\<close>, each once and in this order. Every
  invocation before the last returned zero. If \<open>r\<close> is not zero, it is the status of the
  last invocation made, so no index beyond the failing one is invoked. If \<open>r\<close> is zero,
  every index of the range was invoked and returned zero. Logging does not change the
  status or the memory.
\<close>

theorem halide_do_par_for_fail_fast:
  assumes lo: "- (2 ^ 31) \<le> sint min_v + sint size_v"
    and hi: "sint min_v + sint size_v < 2 ^ 31"
    and run: "halide_do_par_for uc (logged f) min_v size_v cl (s, []) = (r, (s', tr))"
  shows "halide_do_par_for uc f min_v size_v cl s = (r, s')
       \<and> map fst tr = take (length tr) (index_range min_v size_v)
       \<and> (\<forall>p \<in> set (butlast tr). snd p = 0)
       \<and> (r \<noteq> 0 \<longrightarrow> tr \<noteq> [] \<and> snd (last tr) = r)
       \<and> (r = 0 \<longrightarrow> map fst tr = index_range min_v size_v \<and> (\<forall>p \<in> set tr. snd p = 0))"
proof -
  let ?b = "min_v + size_v"
  have b: "sint ?b = sint min_v + sint size_v"
    by (rule sint_bound [OF lo hi])
  have ir: "index_range min_v size_v = map word_of_int [sint min_v .. sint ?b - 1]"
    by (simp add: index_range_def b)
  from do_par_for_loop_logged [of uc f min_v ?b cl s "[]"]
  obtain tr' where
    l: "do_par_for_loop uc (logged f) min_v ?b cl (s, [])
          = (fst (do_par_for_loop uc f min_v ?b cl s),
             (snd (do_par_for_loop uc f min_v ?b cl s), [] @ tr'))"
    and ok: "calls_ok min_v ?b (fst (do_par_for_loop uc f min_v ?b cl s)) tr'"
    by blast
  from l run have r: "fst (do_par_for_loop uc f min_v ?b cl s) = r"
    and s': "snd (do_par_for_loop uc f min_v ?b cl s) = s'" and tr: "tr' = tr"
    by (simp_all add: halide_do_par_for_def)
  have 0: "halide_do_par_for uc f min_v size_v cl s = (r, s')"
    using r s' by (simp add: halide_do_par_for_def prod_eq_iff)
  from ok have ok': "calls_ok min_v ?b r tr"
    by (simp only: r tr)
  have 1: "map fst tr = take (length tr) (index_range min_v size_v)"
    using ok' by (simp add: calls_ok_def ir)
  have 2: "\<forall>p \<in> set (butlast tr). snd p = 0"
    using ok' by (simp add: calls_ok_def)
  have 3: "r \<noteq> 0 \<longrightarrow> tr \<noteq> [] \<and> snd (last tr) = r"
    using ok' by (simp add: calls_ok_def)
  have len: "length (index_range min_v size_v) = nat (sint ?b - sint min_v)"
    by (simp add: ir)
  have 4: "r = 0 \<longrightarrow> map fst tr = index_range min_v size_v \<and> (\<forall>p \<in> set tr. snd p = 0)"
  proof
    assume "r = 0"
    with ok' have "length tr = nat (sint ?b - sint min_v)" and z: "\<forall>p \<in> set tr. snd p = 0"
      by (simp_all add: calls_ok_def)
    with 1 len show "map fst tr = index_range min_v size_v \<and> (\<forall>p \<in> set tr. snd p = 0)"
      by simp
  qed
  show ?thesis
    using 0 1 2 3 4 by blast
qed

text \<open>
  Two runs: a task failing with status 7 at index 5, over \<open>[3, 7)\<close>, and a task that
  succeeds at every index of \<open>[3, 5)\<close>.
\<close>

theorem halide_do_par_for_fail_fast_witness:
  "- (2 ^ 31) \<le> sint (3 :: cint) + sint (4 :: cint) \<and> sint (3 :: cint) + sint (4 :: cint) < 2 ^ 31
   \<and> halide_do_par_for () (logged (fail_at 5 7)) 3 4 () (0, []) = (7, (3, [(3, 0), (4, 0), (5, 7)]))
   \<and> halide_do_par_for () (fail_at 5 7) 3 4 () 0 = (7, 3)
   \<and> map fst [(3 :: cint, 0 :: cint), (4, 0), (5, 7)] = take 3 (index_range 3 4)
   \<and> halide_do_par_for () (logged (fail_at 9 7)) 3 2 () (0, []) = (0, (2, [(3, 0), (4, 0)]))
   \<and> halide_do_par_for () (fail_at 9 7) 3 2 () 0 = (0, 2)
   \<and> map fst [(3 :: cint, 0 :: cint), (4, 0)] = index_range 3 2"
proof -
  have lo: "- (2 ^ 31) \<le> sint (3 :: cint) + sint (4 :: cint)"
    and hi: "sint (3 :: cint) + sint (4 :: cint) < 2 ^ 31"
    and lo': "- (2 ^ 31) \<le> sint (3 :: cint) + sint (2 :: cint)"
    and hi': "sint (3 :: cint) + sint (2 :: cint) < 2 ^ 31"
    by simp_all
  have fail: "halide_do_par_for () (logged (fail_at 5 7)) 3 4 () (0, [])
                = (7, (3, [(3, 0), (4, 0), (5, 7)]))"
    by (simp add: halide_do_par_for_def halide_do_task_def logged_def fail_at_def)
  have pass: "halide_do_par_for () (logged (fail_at 9 7)) 3 2 () (0, [])
                = (0, (2, [(3, 0), (4, 0)]))"
    by (simp add: halide_do_par_for_def halide_do_task_def logged_def fail_at_def)
  have ir4: "index_range 3 4 = [3, 4, 5, 6]" and ir2: "index_range 3 2 = [3, 4]"
    by (simp_all add: index_range_def upto_rec1)
  show ?thesis
    using halide_do_par_for_fail_fast [OF lo hi fail] halide_do_par_for_fail_fast [OF lo' hi' pass]
      fail pass
    by (simp add: ir4 ir2)
qed

section \<open>Properties of the module loader\<close>

subsection \<open>Release and the power reference count\<close>

text \<open>
  A release at a count other than zero closes the image and decrements the count; it
  makes no call to the power interface, whatever the count becomes.
\<close>

lemma release_at_positive_count:
  assumes "context_count st \<noteq> 0"
  shows "halide_hexagon_remote_release_kernels p module_ptr codeLen st
           = (0, \<lparr>context_count = context_count st - 1, calls = calls st @ [Dlclose module_ptr]\<rparr>)"
  using assms by (simp add: halide_hexagon_remote_release_kernels_def call_def Let_def)

text \<open>A release at count zero is the one that calls \<^verbatim>\<open>HAP_power_request(0, 0, -1)\<close>.\<close>

lemma release_at_zero_count:
  assumes "context_count st = 0"
  shows "halide_hexagon_remote_release_kernels p module_ptr codeLen st
           = (0, \<lparr>context_count = - 1,
                  calls = calls st @ [Dlclose module_ptr, HAP_power_request 0 0 (- 1)]\<rparr>)"
  using assms by (simp add: halide_hexagon_remote_release_kernels_def call_def Let_def)

text \<open>A load on the platform on which every call succeeds.\<close>

lemma initialize_all_ok:
  "halide_hexagon_remote_initialize_kernels all_ok code codeLen st
     = (0, Some 0x4000,
        \<lparr>context_count = context_count st + 1,
         calls = calls st @ [Dlopen code, Dlsym 0x4000 ''halide_noos_set_runtime'', Set_runtime]
                  @ (if context_count st = 0 then [HAP_power_set_HVX True] else [])\<rparr>)"
  by (simp add: halide_hexagon_remote_initialize_kernels_def call_def all_ok_def Let_def)

text \<open>
  Claim C1 says that \<open>N\<close> loads followed by \<open>N\<close> releases end with the power-down
  request. For \<open>N = 1\<close>, with every platform call succeeding: the load powers the
  resource up and leaves the count at 1; the release closes the image and leaves the count
  at 0, and no \<^verbatim>\<open>HAP_power_request\<close> is among the calls made.
\<close>

theorem load_then_release_keeps_power:
  "halide_hexagon_remote_initialize_kernels all_ok ''kernels.so'' 0 remote0
     = (0, Some 0x4000,
        \<lparr>context_count = 1,
         calls = [Dlopen ''kernels.so'', Dlsym 0x4000 ''halide_noos_set_runtime'', Set_runtime,
                  HAP_power_set_HVX True]\<rparr>)
   \<and> halide_hexagon_remote_release_kernels all_ok 0x4000 0
       (snd (snd (halide_hexagon_remote_initialize_kernels all_ok ''kernels.so'' 0 remote0)))
     = (0,
        \<lparr>context_count = 0,
         calls = [Dlopen ''kernels.so'', Dlsym 0x4000 ''halide_noos_set_runtime'', Set_runtime,
                  HAP_power_set_HVX True, Dlclose 0x4000]\<rparr>)"
  by (simp add: halide_hexagon_remote_initialize_kernels_def
      halide_hexagon_remote_release_kernels_def call_def all_ok_def remote0_def Let_def)

text \<open>
  The same for every \<open>N\<close> that an \<^verbatim>\<open>int\<close> can count: no load and no release at a count other than
  zero calls \<^verbatim>\<open>HAP_power_request\<close>, so \<open>N\<close> loads followed by \<open>N\<close> releases bring the
  count back to zero without any such call.
\<close>

lemma loads_count: "context_count (loads n st) = context_count st + of_nat n"
  by (induction n arbitrary: st) (simp_all add: initialize_all_ok)

lemma loads_no_power_down:
  "HAP_power_request a b c \<notin> set (calls st) \<Longrightarrow> HAP_power_request a b c \<notin> set (calls (loads n st))"
  by (induction n arbitrary: st) (simp_all add: initialize_all_ok)

lemma releases_no_power_down:
  assumes "n \<le> unat (context_count st)" and "HAP_power_request a b c \<notin> set (calls st)"
  shows "HAP_power_request a b c \<notin> set (calls (releases n st))
       \<and> context_count (releases n st) = context_count st - of_nat n"
  using assms
proof (induction n arbitrary: st)
  case 0
  then show ?case by simp
next
  case (Suc n)
  let ?st' = "\<lparr>context_count = context_count st - 1, calls = calls st @ [Dlclose 0x4000]\<rparr>"
  from Suc.prems(1) have nz: "context_count st \<noteq> 0"
    by (auto simp: unat_eq_zero)
  then have step: "halide_hexagon_remote_release_kernels all_ok 0x4000 0 st = (0, ?st')"
    by (rule release_at_positive_count)
  have "1 \<le> context_count st"
    using nz by (simp add: word_le_nat_alt unat_gt_0 Suc_leI)
  then have "unat (context_count st - 1) = unat (context_count st) - 1"
    by (simp add: unat_sub)
  with Suc.prems(1) have le: "n \<le> unat (context_count ?st')"
    by simp
  have no: "HAP_power_request a b c \<notin> set (calls ?st')"
    using Suc.prems(2) by simp
  from Suc.IH [OF le no] show ?case
    by (simp add: step)
qed

lemma loads_then_releases_keep_power:
  assumes "n < 2 ^ 31"
  shows "HAP_power_request a b c \<notin> set (calls (releases n (loads n remote0)))
       \<and> context_count (releases n (loads n remote0)) = 0"
proof -
  have cnt: "context_count (loads n remote0) = of_nat n"
    by (simp add: loads_count remote0_def)
  have "unat (of_nat n :: cint) = n"
    using assms by (simp add: unat_of_nat)
  then have le: "n \<le> unat (context_count (loads n remote0))"
    by (simp add: cnt)
  have no: "HAP_power_request a b c \<notin> set (calls (loads n remote0))"
    by (rule loads_no_power_down) (simp add: remote0_def)
  from releases_no_power_down [OF le no] show ?thesis
    by (simp add: cnt)
qed

text \<open>
  Claim C4 as the specification words it: a release at count zero does not take the count
  below zero. In the code the count, read as an \<^verbatim>\<open>int\<close>, is \<open>-1\<close> afterwards.
\<close>

theorem release_at_zero_counterexample:
  "context_count remote0 = 0
   \<and> sint (context_count (snd (halide_hexagon_remote_release_kernels all_ok 0x4000 0 remote0))) = - 1
   \<and> sint (context_count (snd (halide_hexagon_remote_release_kernels all_ok 0x4000 0 remote0))) < 0"
  by (simp add: halide_hexagon_remote_release_kernels_def call_def remote0_def Let_def)

lemma sint_pred:
  fixes c :: cint
  assumes "0 < sint c"
  shows "sint (c - 1) = sint c - 1"
proof -
  have "sint c < 2 ^ 31"
    using sint_lt [of c] by simp
  with assms have "signed_take_bit 31 (sint c - 1) = sint c - 1"
    by (intro signed_take_bit_int_eq_self) simp_all
  then show ?thesis
    by (simp add: sint_word_ariths)
qed

text \<open>
  Claim C4, as amended. Every release decrements the count by one, with no guard: after a
  release at a positive count the count is not negative, and after a release at count
  zero it is \<open>-1\<close>.
\<close>

theorem release_decrements_unguarded:
  "context_count (snd (halide_hexagon_remote_release_kernels p module_ptr codeLen st))
     = context_count st - 1
   \<and> (0 < sint (context_count st) \<longrightarrow>
        0 \<le> sint (context_count (snd (halide_hexagon_remote_release_kernels p module_ptr codeLen st))))
   \<and> (context_count st = 0 \<longrightarrow>
        sint (context_count (snd (halide_hexagon_remote_release_kernels p module_ptr codeLen st))) = - 1)"
proof -
  let ?c' = "context_count (snd (halide_hexagon_remote_release_kernels p module_ptr codeLen st))"
  have d: "?c' = context_count st - 1"
    by (simp add: halide_hexagon_remote_release_kernels_def call_def Let_def)
  have pos: "0 < sint (context_count st) \<longrightarrow> 0 \<le> sint ?c'"
    by (simp add: d sint_pred)
  have zero: "context_count st = 0 \<longrightarrow> sint ?c' = - 1"
    by (simp add: d)
  show ?thesis
    using d pos zero by blast
qed

text \<open>Instances: a release at count zero, and a release at count two.\<close>

theorem release_decrements_unguarded_witness:
  "context_count (snd (halide_hexagon_remote_release_kernels all_ok 0x4000 0 remote0))
     = context_count remote0 - 1
   \<and> context_count remote0 = 0
   \<and> sint (context_count (snd (halide_hexagon_remote_release_kernels all_ok 0x4000 0 remote0))) = - 1
   \<and> 0 < sint (context_count (remote0\<lparr>context_count := 2\<rparr>))
   \<and> 0 \<le> sint (context_count (snd (halide_hexagon_remote_release_kernels all_ok 0x4000 0
              (remote0\<lparr>context_count := 2\<rparr>))))"
  using release_decrements_unguarded [of all_ok "0x4000" 0 remote0]
    release_decrements_unguarded [of all_ok "0x4000" 0 "remote0\<lparr>context_count := 2\<rparr>"]
  by (simp add: remote0_def)

text \<open>
  Claim C9. For every module handle and byte count, whatever \<^verbatim>\<open>dlclose\<close> and the power
  interface answer, release returns zero.
\<close>

theorem release_returns_zero:
  "fst (halide_hexagon_remote_release_kernels p module_ptr codeLen st) = 0"
  by (simp add: halide_hexagon_remote_release_kernels_def Let_def)

subsection \<open>Load failures after the image is open\<close>

text \<open>
  Claim C8. Let the image open. If \<^verbatim>\<open>halide_noos_set_runtime\<close> is not found in it, or is
  found and returns a non-zero status, then the load returns a non-zero status (\<open>-1\<close> in
  the first case, the status of the installation call in the second), writes no handle,
  leaves the count as it was, and the last call it makes is \<^verbatim>\<open>dlclose\<close> on the image.
\<close>

theorem initialize_bind_error_unloads:
  assumes opened: "dlopen_answer p \<noteq> 0"
    and bind: "dlsym_answer p = 0 \<or> set_runtime_answer p \<noteq> 0"
  shows "fst (halide_hexagon_remote_initialize_kernels p code codeLen st) \<noteq> 0
       \<and> fst (halide_hexagon_remote_initialize_kernels p code codeLen st)
           = (if dlsym_answer p = 0 then - 1 else set_runtime_answer p)
       \<and> fst (snd (halide_hexagon_remote_initialize_kernels p code codeLen st)) = None
       \<and> context_count (snd (snd (halide_hexagon_remote_initialize_kernels p code codeLen st)))
           = context_count st
       \<and> calls (snd (snd (halide_hexagon_remote_initialize_kernels p code codeLen st)))
           = calls st @ [Dlopen code, Dlsym (dlopen_answer p) ''halide_noos_set_runtime'']
               @ (if dlsym_answer p = 0 then [] else [Set_runtime])
               @ [Dlclose (dlopen_answer p)]"
proof (cases "dlsym_answer p = 0")
  case True
  with opened show ?thesis
    by (simp add: halide_hexagon_remote_initialize_kernels_def call_def Let_def)
next
  case False
  with bind have "set_runtime_answer p \<noteq> 0"
    by simp
  with opened False show ?thesis
    by (simp add: halide_hexagon_remote_initialize_kernels_def call_def Let_def)
qed

text \<open>Instances: the entry point is absent; the entry point returns 3.\<close>

theorem initialize_bind_error_unloads_witness:
  "dlopen_answer (all_ok\<lparr>dlsym_answer := 0\<rparr>) \<noteq> 0
   \<and> dlsym_answer (all_ok\<lparr>dlsym_answer := 0\<rparr>) = 0
   \<and> halide_hexagon_remote_initialize_kernels (all_ok\<lparr>dlsym_answer := 0\<rparr>) ''kernels.so'' 0 remote0
       = (- 1, None,
          \<lparr>context_count = 0,
           calls = [Dlopen ''kernels.so'', Dlsym 0x4000 ''halide_noos_set_runtime'', Dlclose 0x4000]\<rparr>)
   \<and> dlopen_answer (all_ok\<lparr>set_runtime_answer := 3\<rparr>) \<noteq> 0
   \<and> set_runtime_answer (all_ok\<lparr>set_runtime_answer := 3\<rparr>) \<noteq> 0
   \<and> halide_hexagon_remote_initialize_kernels (all_ok\<lparr>set_runtime_answer := 3\<rparr>) ''kernels.so'' 0 remote0
       = (3, None,
          \<lparr>context_count = 0,
           calls = [Dlopen ''kernels.so'', Dlsym 0x4000 ''halide_noos_set_runtime'', Set_runtime,
                    Dlclose 0x4000]\<rparr>)"
proof -
  have a: "dlopen_answer (all_ok\<lparr>dlsym_answer := 0\<rparr>) \<noteq> 0"
    and b: "dlsym_answer (all_ok\<lparr>dlsym_answer := 0\<rparr>) = 0
            \<or> set_runtime_answer (all_ok\<lparr>dlsym_answer := 0\<rparr>) \<noteq> 0"
    and c: "dlopen_answer (all_ok\<lparr>set_runtime_answer := 3\<rparr>) \<noteq> 0"
    and d: "dlsym_answer (all_ok\<lparr>set_runtime_answer := 3\<rparr>) = 0
            \<or> set_runtime_answer (all_ok\<lparr>set_runtime_answer := 3\<rparr>) \<noteq> 0"
    by (simp_all add: all_ok_def)
  show ?thesis
    using initialize_bind_error_unloads [OF a b, of "''kernels.so''" 0 remote0]
      initialize_bind_error_unloads [OF c d, of "''kernels.so''" 0 remote0]
    by (simp add: all_ok_def remote0_def prod_eq_iff)
qed

text \<open>
  The path of the load on which the image is open, the runtime is installed, the count is
  zero and \<^verbatim>\<open>HAP_power_set\<close> fails: it returns \<open>-1\<close> straight after that call.
\<close>

lemma initialize_power_denied:
  assumes "dlopen_answer p \<noteq> 0" and "dlsym_answer p \<noteq> 0" and "set_runtime_answer p = 0"
    and "context_count st = 0" and "power_set_answer p \<noteq> 0"
  shows "halide_hexagon_remote_initialize_kernels p code codeLen st
     = (- 1, Some (dlopen_answer p),
        \<lparr>context_count = context_count st,
         calls = calls st @ [Dlopen code, Dlsym (dlopen_answer p) ''halide_noos_set_runtime'',
                            Set_runtime, HAP_power_set_HVX True]\<rparr>)"
  using assms
  by (simp add: halide_hexagon_remote_initialize_kernels_def call_def Let_def)

text \<open>
  Claim C2 says that a load whose power-on request is denied unloads the image. With the
  image opened at \<open>0x4000\<close>, the runtime installed and \<^verbatim>\<open>HAP_power_set\<close> answering 1:
  the status is \<open>-1\<close> and the count is unchanged, the handle has been written, and the
  last call made is the power request; there is no \<^verbatim>\<open>dlclose\<close>.
\<close>

theorem power_denied_leaves_image_open:
  "halide_hexagon_remote_initialize_kernels (all_ok\<lparr>power_set_answer := 1\<rparr>) ''kernels.so'' 0 remote0
     = (- 1, Some 0x4000,
        \<lparr>context_count = 0,
         calls = [Dlopen ''kernels.so'', Dlsym 0x4000 ''halide_noos_set_runtime'', Set_runtime,
                  HAP_power_set_HVX True]\<rparr>)"
  by (simp add: halide_hexagon_remote_initialize_kernels_def call_def all_ok_def remote0_def Let_def)

section \<open>Properties of the invocation marshaler\<close>

subsection \<open>What the loops leave in the arrays\<close>

lemma buffers_loop_cursors:
  "next_arg (buffers_loop bs fr) = next_arg fr + length bs"
  "next_buffer_t (buffers_loop bs fr) = next_buffer_t fr + length bs"
  "length (args (buffers_loop bs fr)) = length (args fr)"
  "length (buffers (buffers_loop bs fr)) = length (buffers fr)"
  by (induction bs arbitrary: fr) simp_all

lemma scalars_loop_cursors:
  "next_arg (scalars_loop bs fr) = next_arg fr + length bs"
  "next_buffer_t (scalars_loop bs fr) = next_buffer_t fr"
  "length (args (scalars_loop bs fr)) = length (args fr)"
  "buffers (scalars_loop bs fr) = buffers fr"
  by (induction bs arbitrary: fr) simp_all

lemma buffers_loop_args_nth:
  "k < length (args fr) \<Longrightarrow>
   args (buffers_loop bs fr) ! k =
     (if next_arg fr \<le> k \<and> k < next_arg fr + length bs
      then Buffer_t_ptr (next_buffer_t fr + (k - next_arg fr)) else args fr ! k)"
proof (induction bs arbitrary: fr)
  case Nil
  then show ?case by auto
next
  case (Cons b bs)
  then show ?case
    by (auto simp: nth_list_update)
qed

lemma buffers_loop_buffers_nth:
  "k < length (buffers fr) \<Longrightarrow>
   buffers (buffers_loop bs fr) ! k =
     (if next_buffer_t fr \<le> k \<and> k < next_buffer_t fr + length bs
      then (buffers fr ! k)\<lparr>host := data (bs ! (k - next_buffer_t fr))\<rparr> else buffers fr ! k)"
proof (induction bs arbitrary: fr)
  case Nil
  then show ?case by auto
next
  case (Cons b bs)
  show ?case
  proof (cases "k = next_buffer_t fr")
    case True
    with Cons show ?thesis
      by (simp add: nth_list_update)
  next
    case False
    with Cons show ?thesis
      by (auto simp: nth_list_update nth_Cons')
  qed
qed

lemma scalars_loop_args_nth:
  "k < length (args fr) \<Longrightarrow>
   args (scalars_loop bs fr) ! k =
     (if next_arg fr \<le> k \<and> k < next_arg fr + length bs
      then Data_ptr (data (bs ! (k - next_arg fr))) else args fr ! k)"
proof (induction bs arbitrary: fr)
  case Nil
  then show ?case by auto
next
  case (Cons b bs)
  then show ?case
    by (auto simp: nth_list_update nth_Cons')
qed


lemma marshal_frame:
  "length (args (marshal stk ins scs outs)) = length ins + length scs + length outs"
  "length (buffers (marshal stk ins scs outs)) = length ins + length outs"
  by (simp_all add: marshal_def Let_def buffers_loop_cursors scalars_loop_cursors
      alloca_args_def alloca_buffers_def)

lemma marshal_args_nth:
  assumes "k < length ins + length scs + length outs"
  shows "args (marshal stk ins scs outs) ! k =
     (if k < length ins then Buffer_t_ptr k
      else if k < length ins + length scs then Data_ptr (data (scs ! (k - length ins)))
      else Buffer_t_ptr (k - length scs))"
  using assms
  by (simp add: marshal_def Let_def buffers_loop_args_nth scalars_loop_args_nth
      buffers_loop_cursors scalars_loop_cursors alloca_args_def alloca_buffers_def)

lemma marshal_buffers_nth:
  assumes "j < length ins + length outs"
  shows "buffers (marshal stk ins scs outs) ! j =
           (stale_buffers stk j)\<lparr>host := data ((ins @ outs) ! j)\<rparr>"
  using assms
  by (simp add: marshal_def Let_def buffers_loop_buffers_nth
      buffers_loop_cursors scalars_loop_cursors alloca_args_def alloca_buffers_def nth_append)

subsection \<open>The argument list and the descriptors\<close>

text \<open>
  Claim C6. For every run, the argument array holds, in this order, a slot for each input
  buffer, a slot for each input scalar and a slot for each output buffer. The slot of a
  buffer points at a descriptor of its own (the descriptors are in the same order, inputs
  first), and the \<open>host\<close> fields of the descriptors are the data pointers of the buffers.
  The slot of a scalar is the scalar's data pointer. The status returned is the one the
  pipeline returns on these arrays.
\<close>

theorem run_argument_layout:
  "args (marshal stk input_buffers input_scalars output_buffers)
     = map Buffer_t_ptr [0 ..< length input_buffers]
       @ map (\<lambda>b. Data_ptr (data b)) input_scalars
       @ map Buffer_t_ptr [length input_buffers ..< length input_buffers + length output_buffers]
   \<and> map host (buffers (marshal stk input_buffers input_scalars output_buffers))
     = map data input_buffers @ map data output_buffers
   \<and> halide_hexagon_remote_run stk module_ptr pipeline input_buffers input_scalars output_buffers w
     = pipeline (args (marshal stk input_buffers input_scalars output_buffers))
         (buffers (marshal stk input_buffers input_scalars output_buffers)) w"
proof -
  let ?fr = "marshal stk input_buffers input_scalars output_buffers"
  have a: "args ?fr = map Buffer_t_ptr [0 ..< length input_buffers]
       @ map (\<lambda>b. Data_ptr (data b)) input_scalars
       @ map Buffer_t_ptr [length input_buffers ..< length input_buffers + length output_buffers]"
  proof (rule nth_equalityI)
    show "length (args ?fr) = length (map Buffer_t_ptr [0 ..< length input_buffers]
       @ map (\<lambda>b. Data_ptr (data b)) input_scalars
       @ map Buffer_t_ptr [length input_buffers ..< length input_buffers + length output_buffers])"
      by (simp add: marshal_frame)
  next
    fix k assume "k < length (args ?fr)"
    then have k: "k < length input_buffers + length input_scalars + length output_buffers"
      by (simp add: marshal_frame)
    show "args ?fr ! k = (map Buffer_t_ptr [0 ..< length input_buffers]
       @ map (\<lambda>b. Data_ptr (data b)) input_scalars
       @ map Buffer_t_ptr [length input_buffers ..< length input_buffers + length output_buffers]) ! k"
      using k by (auto simp: marshal_args_nth nth_append)
  qed
  have b: "map host (buffers ?fr) = map data input_buffers @ map data output_buffers"
  proof (rule nth_equalityI)
    show "length (map host (buffers ?fr)) = length (map data input_buffers @ map data output_buffers)"
      by (simp add: marshal_frame)
  next
    fix j assume "j < length (map host (buffers ?fr))"
    then have j: "j < length input_buffers + length output_buffers"
      by (simp add: marshal_frame)
    then have "map host (buffers ?fr) ! j = data ((input_buffers @ output_buffers) ! j)"
      by (simp add: marshal_frame marshal_buffers_nth)
    also have "\<dots> = (map data input_buffers @ map data output_buffers) ! j"
      using j by (simp add: nth_append)
    finally show "map host (buffers ?fr) ! j = (map data input_buffers @ map data output_buffers) ! j" .
  qed
  have c: "halide_hexagon_remote_run stk module_ptr pipeline input_buffers input_scalars output_buffers w
     = pipeline (args ?fr) (buffers ?fr) w"
    by (simp add: halide_hexagon_remote_run_def Let_def)
  show ?thesis
    using a b c by blast
qed

text \<open>
  Claim C7, as amended. For every buffer argument, the descriptor passed to the pipeline
  has its \<open>host\<close> field equal to the data pointer of the buffer. Its \<open>dev\<close> field is not
  written by the run: it holds what the stack held at that place.
\<close>

theorem run_descriptor_fields:
  assumes "j < length input_buffers + length output_buffers"
  shows "length (buffers (marshal stk input_buffers input_scalars output_buffers))
           = length input_buffers + length output_buffers
       \<and> host (buffers (marshal stk input_buffers input_scalars output_buffers) ! j)
           = data ((input_buffers @ output_buffers) ! j)
       \<and> dev (buffers (marshal stk input_buffers input_scalars output_buffers) ! j)
           = dev (stale_buffers stk j)"
  using assms by (simp add: marshal_frame marshal_buffers_nth)

text \<open>An instance: one input buffer and one output buffer on a stack of stale values.\<close>

theorem run_descriptor_fields_witness:
  "(0::nat) < length [\<lparr>data = 0x100, dataLen = 4\<rparr>] + length [\<lparr>data = 0x400, dataLen = 4\<rparr>]
   \<and> host (buffers (marshal stale_stack [\<lparr>data = 0x100, dataLen = 4\<rparr>] [] [\<lparr>data = 0x400, dataLen = 4\<rparr>]) ! 0) = 0x100
   \<and> dev (buffers (marshal stale_stack [\<lparr>data = 0x100, dataLen = 4\<rparr>] [] [\<lparr>data = 0x400, dataLen = 4\<rparr>]) ! 0) = 0xDEADBEEF
   \<and> host (buffers (marshal stale_stack [\<lparr>data = 0x100, dataLen = 4\<rparr>] [] [\<lparr>data = 0x400, dataLen = 4\<rparr>]) ! 1) = 0x400"
  using run_descriptor_fields [of 0 "[\<lparr>data = 0x100, dataLen = 4\<rparr>]" "[\<lparr>data = 0x400, dataLen = 4\<rparr>]" stale_stack "[]"]
    run_descriptor_fields [of 1 "[\<lparr>data = 0x100, dataLen = 4\<rparr>]" "[\<lparr>data = 0x400, dataLen = 4\<rparr>]" stale_stack "[]"]
  by (simp add: stale_stack_def)

text \<open>
  Claim C7 as the specification words it: the \<open>dev\<close> field of the descriptor is zero. On
  a stack whose stale values are not zero, it is not.
\<close>

theorem run_descriptor_dev_counterexample:
  "dev (buffers (marshal stale_stack [\<lparr>data = 0x100, dataLen = 4\<rparr>] [] []) ! 0) = 0xDEADBEEF
   \<and> dev (buffers (marshal stale_stack [\<lparr>data = 0x100, dataLen = 4\<rparr>] [] []) ! 0) \<noteq> 0"
  by (simp add: marshal_def stale_stack_def alloca_args_def alloca_buffers_def)

end
